theory Spec2Isabelle
  imports Main "HOL-Library.Sublist"
begin

section \<open>The helpers of the nozomi client: paths and input normalisation\<close>

text \<open>
  The module \<^verbatim>\<open>nozomi/helpers.py\<close> consists of pure string functions. Its work is
  done by the built-in string methods (\<^verbatim>\<open>lower\<close>, \<^verbatim>\<open>strip\<close>, \<^verbatim>\<open>int\<close>, \<^verbatim>\<open>str\<close>,
  \<^verbatim>\<open>format\<close>) and by the regular expressions of the \<^verbatim>\<open>re\<close> module, so the
  embedding first fixes what these do, and then transcribes the functions of the module
  line by line.

  A Python \<^verbatim>\<open>str\<close> is modelled as a \<^typ>\<open>string\<close>: a list of characters whose code points
  lie in 0..255 (the Latin-1 range of Unicode, which contains every character that the
  module treats specially). An exception is a value of the type \<open>error\<close>, and a function
  that can raise returns \<open>error + 'a\<close>. Logging is not modelled: it changes no result.
\<close>

subsection \<open>Exceptions\<close>

text \<open>The two exceptions of \<^verbatim>\<open>nozomi.exceptions\<close>, with the arguments they are raised
  with, and the exceptions of the interpreter and of \<^verbatim>\<open>re\<close> that the built-in
  operations used here can raise (without their messages).\<close>

datatype error =
    InvalidTagFormat string
  | InvalidUrlFormat string string
  | ReError
  | IndexError
  | TypeError
  | UnboundLocalError

subsection \<open>Built-in string operations\<close>

definition ord :: "char \<Rightarrow> nat" where
  "ord c = of_char c"

definition chr :: "nat \<Rightarrow> char" where
  "chr n = char_of n"

text \<open>\<^verbatim>\<open>str.lower\<close>: in the range 0..255 the cased upper-case characters are A-Z and
  the letters 0xC0-0xDE without the multiplication sign 0xD7; each is 0x20 below its
  lower-case form.\<close>

definition lower_char :: "char \<Rightarrow> char" where
  "lower_char c =
     (let n = ord c in
      if (0x41 \<le> n \<and> n \<le> 0x5A) \<or> (0xC0 \<le> n \<and> n \<le> 0xDE \<and> n \<noteq> 0xD7)
      then chr (n + 0x20) else c)"

definition lower :: "string \<Rightarrow> string" where
  "lower s = map lower_char s"

text \<open>\<^verbatim>\<open>str.isspace\<close> on one character; \<^verbatim>\<open>str.strip()\<close> removes these characters from
  both ends.\<close>

definition isspace :: "char \<Rightarrow> bool" where
  "isspace c = (ord c \<in> {0x09, 0x0A, 0x0B, 0x0C, 0x0D, 0x1C, 0x1D, 0x1E, 0x1F, 0x20, 0x85, 0xA0})"

definition strip :: "string \<Rightarrow> string" where
  "strip s = rev (dropWhile isspace (rev (dropWhile isspace s)))"

text \<open>\<^verbatim>\<open>str(n)\<close> for an integer: the decimal digits, with a minus sign in front of a
  negative number.\<close>

definition digit_char :: "nat \<Rightarrow> char" where
  "digit_char d = chr (0x30 + d)"

function str_nat :: "nat \<Rightarrow> string" where
  "str_nat n = (if n < 10 then [digit_char n] else str_nat (n div 10) @ [digit_char (n mod 10)])"
  by pat_completeness auto
termination
  by (relation "measure id") auto

definition str :: "int \<Rightarrow> string" where
  "str i = (if i < 0 then CHR ''-'' # str_nat (nat (- i)) else str_nat (nat i))"

text \<open>\<^verbatim>\<open>format(n, 'x')\<close>: the hexadecimal digits of a natural number, lower case, without
  padding.\<close>

definition hex_char :: "nat \<Rightarrow> char" where
  "hex_char d = (if d < 10 then chr (0x30 + d) else chr (0x61 + (d - 10)))"

function format_x :: "nat \<Rightarrow> string" where
  "format_x n = (if n < 16 then [hex_char n] else format_x (n div 16) @ [hex_char (n mod 16)])"
  by pat_completeness auto
termination
  by (relation "measure id") auto

text \<open>\<^verbatim>\<open>int(s)\<close> for a string, base 10: white space around the literal is skipped, one
  sign is allowed, and the digits may be separated by single underscores. The white space
  of \<^verbatim>\<open>int\<close> is that of \<^verbatim>\<open>isspace\<close> without the separators 0x1C-0x1F. \<open>None\<close> stands
  for the \<^verbatim>\<open>ValueError\<close>. The optional limit of the interpreter on the number of digits of
  the literal (\<^verbatim>\<open>sys.set_int_max_str_digits\<close>) is taken to be switched off.\<close>

definition int_space :: "char \<Rightarrow> bool" where
  "int_space c = (ord c \<in> {0x09, 0x0A, 0x0B, 0x0C, 0x0D, 0x20, 0x85, 0xA0})"

definition isdigit :: "char \<Rightarrow> bool" where
  "isdigit c = (0x30 \<le> ord c \<and> ord c \<le> 0x39)"

fun underscores_ok :: "string \<Rightarrow> bool" where
  "underscores_ok [] = False"
| "underscores_ok [c] = isdigit c"
| "underscores_ok (c # d # cs) =
     (if isdigit c then underscores_ok (d # cs)
      else isdigit d \<and> underscores_ok (d # cs))"

definition digits_value :: "string \<Rightarrow> nat" where
  "digits_value ds = foldl (\<lambda>acc c. 10 * acc + (ord c - 0x30)) 0 (filter isdigit ds)"

definition int_unsigned :: "string \<Rightarrow> nat option" where
  "int_unsigned s =
     (let body = takeWhile (\<lambda>c. isdigit c \<or> c = CHR ''_'') s;
          tail = dropWhile (\<lambda>c. isdigit c \<or> c = CHR ''_'') s
      in if body \<noteq> [] \<and> isdigit (hd body) \<and> underscores_ok body \<and> dropWhile int_space tail = []
         then Some (digits_value body) else None)"

definition py_int :: "string \<Rightarrow> int option" where
  "py_int s =
     (case dropWhile int_space s of
        [] \<Rightarrow> None
      | c # cs \<Rightarrow>
          if c = CHR ''-'' then map_option (\<lambda>n. - int n) (int_unsigned cs)
          else if c = CHR ''+'' then map_option int (int_unsigned cs)
          else map_option int (int_unsigned (c # cs)))"

subsection \<open>Regular expressions: the backtracking matcher of the \<^verbatim>\<open>re\<close> module\<close>

text \<open>
  The four patterns of the module are built from single-character items, greedy and lazy
  repetition of such an item, concatenation, numbered groups and the two anchors. The
  matcher returns every way to match, in the order in which the backtracking matcher of
  \<^verbatim>\<open>re\<close> tries them: a greedy \<^verbatim>\<open>*\<close> takes as many characters as it can and gives
  them back one by one, a lazy \<^verbatim>\<open>*?\<close> starts with none and takes one more each time.
  The match that \<^verbatim>\<open>re\<close> reports is the first of the list.
\<close>

datatype class_item = CChar char | CSpace | CNotSpace

datatype atom = Dot | Lit char | Class "class_item list"

datatype regex =
    Eps
  | Atom atom
  | Star atom
  | StarLazy atom
  | Seq regex regex
  | Group nat regex
  | Bol
  | Eol

fun class_item_ok :: "class_item \<Rightarrow> char \<Rightarrow> bool" where
  "class_item_ok (CChar d) c = (c = d)"
| "class_item_ok CSpace c = isspace c"
| "class_item_ok CNotSpace c = (\<not> isspace c)"

text \<open>Without the flag \<^verbatim>\<open>DOTALL\<close>, a dot matches every character but the newline.\<close>

fun atom_ok :: "atom \<Rightarrow> char \<Rightarrow> bool" where
  "atom_ok Dot c = (c \<noteq> CHR 0x0A)"
| "atom_ok (Lit d) c = (c = d)"
| "atom_ok (Class items) c = list_ex (\<lambda>i. class_item_ok i c) items"

text \<open>A state of the matcher: the subject left of the current position, the subject from
  the current position on, the position at which this attempt started, and the text of the
  groups closed so far.\<close>

record mstate =
  seen :: string
  rest :: string
  start :: nat
  groups :: "nat \<rightharpoonup> string"

definition init_state :: "string \<Rightarrow> string \<Rightarrow> mstate" where
  "init_state b a = \<lparr>seen = b, rest = a, start = length b, groups = Map.empty\<rparr>"

fun star_positions :: "bool \<Rightarrow> atom \<Rightarrow> string \<Rightarrow> string \<Rightarrow> (string \<times> string) list" where
  "star_positions greedy a b [] = [(b, [])]"
| "star_positions greedy a b (c # cs) =
     (if atom_ok a c
      then (if greedy then star_positions greedy a (b @ [c]) cs @ [(b, c # cs)]
            else (b, c # cs) # star_positions greedy a (b @ [c]) cs)
      else [(b, c # cs)])"

definition move_to :: "mstate \<Rightarrow> string \<times> string \<Rightarrow> mstate" where
  "move_to st p = st\<lparr>seen := fst p, rest := snd p\<rparr>"

definition close_group :: "nat \<Rightarrow> mstate \<Rightarrow> mstate \<Rightarrow> mstate" where
  "close_group n st st' = st'\<lparr>groups := (groups st')(n \<mapsto> drop (length (seen st)) (seen st'))\<rparr>"

text \<open>Without the flag \<^verbatim>\<open>MULTILINE\<close>, \<^verbatim>\<open>^\<close> matches at the start of the subject only, and
  \<^verbatim>\<open>$\<close> at its end and in front of a newline that ends it.\<close>

fun ms :: "regex \<Rightarrow> mstate \<Rightarrow> mstate list" where
  "ms Eps st = [st]"
| "ms (Atom a) st =
     (case rest st of
        [] \<Rightarrow> []
      | c # cs \<Rightarrow> if atom_ok a c then [move_to st (seen st @ [c], cs)] else [])"
| "ms (Star a) st = map (move_to st) (star_positions True a (seen st) (rest st))"
| "ms (StarLazy a) st = map (move_to st) (star_positions False a (seen st) (rest st))"
| "ms (Seq r1 r2) st = concat (map (ms r2) (ms r1 st))"
| "ms (Group n r) st = map (close_group n st) (ms r st)"
| "ms Bol st = (if seen st = [] then [st] else [])"
| "ms Eol st = (if rest st = [] \<or> rest st = [CHR 0x0A] then [st] else [])"

definition is_empty_match :: "mstate \<Rightarrow> bool" where
  "is_empty_match st = (length (seen st) = start st)"

text \<open>\<^verbatim>\<open>search\<close>: the first position, from the left, at which the pattern matches, and
  the first match there. With \<open>must_advance\<close> an empty match at the first position is
  refused: \<^verbatim>\<open>sub\<close> sets it after an empty match.\<close>

fun search_from :: "regex \<Rightarrow> bool \<Rightarrow> string \<Rightarrow> string \<Rightarrow> mstate option" where
  "search_from r must_advance b a =
     (case filter (\<lambda>st. \<not> (must_advance \<and> is_empty_match st)) (ms r (init_state b a)) of
        st # _ \<Rightarrow> Some st
      | [] \<Rightarrow> (case a of [] \<Rightarrow> None | c # cs \<Rightarrow> search_from r False (b @ [c]) cs))"

definition re_search :: "regex \<Rightarrow> string \<Rightarrow> mstate option" where
  "re_search r s = search_from r False [] s"

text \<open>\<^verbatim>\<open>sub\<close>: the loop of \<^verbatim>\<open>re.sub\<close> over the non-overlapping matches, from the left.
  The text between two matches is copied, each match is replaced by what \<open>repl\<close> makes
  of it, and the search goes on where the match ended. The matcher never leaves the subject,
  which is what makes the loop end.\<close>

lemma star_positions_inv:
  "p \<in> set (star_positions g x b a) \<Longrightarrow> fst p @ snd p = b @ a \<and> length b \<le> length (fst p)"
  by (induction g x b a rule: star_positions.induct) (auto split: if_splits)

lemma ms_inv:
  "st' \<in> set (ms r st) \<Longrightarrow>
     seen st' @ rest st' = seen st @ rest st \<and> start st' = start st \<and>
     length (seen st) \<le> length (seen st')"
proof (induction r arbitrary: st st')
  case (Seq r1 r2)
  from Seq.prems obtain m where m: "m \<in> set (ms r1 st)" and s: "st' \<in> set (ms r2 m)"
    by auto
  from Seq.IH(1)[OF m] Seq.IH(2)[OF s] show ?case by simp
next
  case (Group n r)
  from Group.prems obtain m where m: "m \<in> set (ms r st)" and s: "st' = close_group n st m"
    by auto
  from Group.IH[OF m] s show ?case by (simp add: close_group_def)
qed (auto simp: move_to_def split: list.splits if_splits dest!: star_positions_inv)

lemma search_from_inv:
  "search_from r m b a = Some st \<Longrightarrow>
     seen st @ rest st = b @ a \<and> length b \<le> start st \<and> start st \<le> length (seen st) \<and>
     (m \<and> start st = length b \<longrightarrow> \<not> is_empty_match st)"
proof (induction r m b a rule: search_from.induct)
  case (1 r must_advance b a)
  show ?case
  proof (cases "filter (\<lambda>st. \<not> (must_advance \<and> is_empty_match st)) (ms r (init_state b a))")
    case Nil
    with "1.prems" obtain c cs where a: "a = c # cs"
      and s: "search_from r False (b @ [c]) cs = Some st"
      by (auto split: list.splits)
    from "1.IH"[OF Nil a s] a show ?thesis by auto
  next
    case (Cons x xs)
    with "1.prems" have "x = st" by simp
    with Cons have "st \<in> set (filter (\<lambda>st. \<not> (must_advance \<and> is_empty_match st)) (ms r (init_state b a)))"
      by simp
    then have mem: "st \<in> set (ms r (init_state b a))" and ne: "\<not> (must_advance \<and> is_empty_match st)"
      by auto
    from ms_inv[OF mem] ne show ?thesis by (simp add: init_state_def)
  qed
qed

function sub_loop ::
  "regex \<Rightarrow> (mstate \<Rightarrow> error + string) \<Rightarrow> bool \<Rightarrow> string \<Rightarrow> string \<Rightarrow> error + string" where
  "sub_loop r repl must_advance b a =
     (case search_from r must_advance b a of
        None \<Rightarrow> Inr a
      | Some st \<Rightarrow>
          (case repl st of
             Inl e \<Rightarrow> Inl e
           | Inr new \<Rightarrow>
               (case sub_loop r repl (is_empty_match st) (seen st) (rest st) of
                  Inl e \<Rightarrow> Inl e
                | Inr out \<Rightarrow> Inr (take (start st - length b) a @ new @ out))))"
  by pat_completeness auto
termination
proof (relation "measure (\<lambda>(r, repl, m, b, a). 2 * length a + (if m then 0 else 1))", goal_cases)
  case 1
  show ?case by simp
next
  case (2 r repl m b a st new)
  from search_from_inv[OF 2(1)] have
    eq: "length (seen st) + length (rest st) = length b + length a"
    and le: "length b \<le> start st" "start st \<le> length (seen st)"
    and adv: "m \<and> start st = length b \<longrightarrow> \<not> is_empty_match st"
    by (metis length_append, simp_all)
  then show ?case by (auto simp: is_empty_match_def)
qed

text \<open>\<^verbatim>\<open>re.sub(pattern, function, string)\<close>: the replacement is computed from each
  match by a function, and an exception of the function leaves \<^verbatim>\<open>sub\<close>.\<close>

definition re_sub :: "regex \<Rightarrow> (mstate \<Rightarrow> error + string) \<Rightarrow> string \<Rightarrow> error + string" where
  "re_sub r repl s = sub_loop r repl False [] s"

text \<open>\<^verbatim>\<open>match.group(n)\<close>: group 0 is the whole match; a group that took no part in the
  match has no text.\<close>

definition group :: "mstate \<Rightarrow> nat \<Rightarrow> string option" where
  "group st n = (if n = 0 then Some (drop (start st) (seen st)) else groups st n)"

subsection \<open>Replacement templates\<close>

text \<open>
  When the replacement of \<^verbatim>\<open>re.sub\<close> is a string, it is a template: \<^verbatim>\<open>re\<close> parses it
  before it searches, so that an ill-formed template raises even when nothing matches. A
  backslash starts an escape: \<^verbatim>\<open>\g<n>\<close> and \<^verbatim>\<open>\n\<close> stand for the text of group \<open>n\<close>,
  \<^verbatim>\<open>\0\<close> and three octal digits for a character, the escapes of the table for a control
  character; a backslash in front of another ASCII letter is an error, and in front of
  anything else it stays. The parser follows \<^verbatim>\<open>parse_template\<close> of CPython 3.7 to 3.11
  for a pattern with \<open>g\<close> groups, none of them named. It reads one token ahead, so that a
  single backslash at the very end is reported as soon as the token in front of it has been
  read.
\<close>

datatype titem = TLit string | TGroup nat

definition bslash :: char where
  "bslash = CHR 0x5C"

definition isoctal :: "char \<Rightarrow> bool" where
  "isoctal c = (0x30 \<le> ord c \<and> ord c \<le> 0x37)"

definition octal_value :: "string \<Rightarrow> nat" where
  "octal_value ds = foldl (\<lambda>acc c. 8 * acc + (ord c - 0x30)) 0 ds"

definition is_ascii_letter :: "char \<Rightarrow> bool" where
  "is_ascii_letter c = ((0x41 \<le> ord c \<and> ord c \<le> 0x5A) \<or> (0x61 \<le> ord c \<and> ord c \<le> 0x7A))"

definition id_start :: "char \<Rightarrow> bool" where
  "id_start c =
     (let n = ord c in
      is_ascii_letter c \<or> n = 0x5F \<or> n = 0xAA \<or> n = 0xB5 \<or> n = 0xBA \<or>
      (0xC0 \<le> n \<and> n \<le> 0xD6) \<or> (0xD8 \<le> n \<and> n \<le> 0xF6) \<or> 0xF8 \<le> n)"

definition id_continue :: "char \<Rightarrow> bool" where
  "id_continue c = (id_start c \<or> isdigit c \<or> ord c = 0xB7)"

definition isidentifier :: "string \<Rightarrow> bool" where
  "isidentifier s = (case s of [] \<Rightarrow> False | c # cs \<Rightarrow> id_start c \<and> list_all id_continue cs)"

definition escapes :: "char \<Rightarrow> char option" where
  "escapes e =
     (if e = CHR ''a'' then Some (chr 7) else if e = CHR ''b'' then Some (chr 8)
      else if e = CHR ''f'' then Some (chr 12) else if e = CHR ''n'' then Some (chr 10)
      else if e = CHR ''r'' then Some (chr 13) else if e = CHR ''t'' then Some (chr 9)
      else if e = CHR ''v'' then Some (chr 11) else if e = bslash then Some bslash
      else None)"

definition add_item :: "titem \<Rightarrow> error + titem list \<Rightarrow> error + titem list" where
  "add_item i res = (case res of Inl e \<Rightarrow> Inl e | Inr items \<Rightarrow> Inr (i # items))"

definition add_group :: "nat \<Rightarrow> nat \<Rightarrow> error + titem list \<Rightarrow> error + titem list" where
  "add_group g n res = (if n > g then Inl ReError else add_item (TGroup n) res)"

definition in_name :: "char \<Rightarrow> bool" where
  "in_name c = (c \<noteq> CHR ''>'' \<and> c \<noteq> bslash)"

function parse_template :: "nat \<Rightarrow> string \<Rightarrow> error + titem list" where
  "parse_template g [] = Inr []"
| "parse_template g [c] = (if c = bslash then Inl ReError else Inr [TLit [c]])"
| "parse_template g (c # e # cs) =
     (if c \<noteq> bslash then add_item (TLit [c]) (parse_template g (e # cs))
      else if e = CHR ''g'' then
        (case cs of
           [] \<Rightarrow> Inl ReError
         | lt # cs1 \<Rightarrow>
             if lt \<noteq> CHR ''<'' then Inl ReError
             else (case dropWhile in_name cs1 of
                     [] \<Rightarrow> Inl ReError
                   | t # cs2 \<Rightarrow>
                       if t = bslash \<or> takeWhile in_name cs1 = [] \<or> cs2 = [bslash] then Inl ReError
                       else if isidentifier (takeWhile in_name cs1) then Inl IndexError
                       else (case py_int (takeWhile in_name cs1) of
                               None \<Rightarrow> Inl ReError
                             | Some n \<Rightarrow>
                                 if n < 0 then Inl ReError
                                 else add_group g (nat n) (parse_template g cs2))))
      else if e = CHR ''0'' then
        (case cs of
           d1 # d2 # cs2 \<Rightarrow>
             if isoctal d1 \<and> isoctal d2
             then add_item (TLit [chr (octal_value [e, d1, d2])]) (parse_template g cs2)
             else if isoctal d1
             then add_item (TLit [chr (octal_value [e, d1])]) (parse_template g (d2 # cs2))
             else add_item (TLit [chr 0]) (parse_template g cs)
         | [d1] \<Rightarrow>
             if isoctal d1 then Inr [TLit [chr (octal_value [e, d1])]]
             else add_item (TLit [chr 0]) (parse_template g cs)
         | [] \<Rightarrow> Inr [TLit [chr 0]])
      else if isdigit e then
        (case cs of
           [] \<Rightarrow> add_group g (ord e - 0x30) (Inr [])
         | d # cs1 \<Rightarrow>
             if isdigit d then
               (case cs1 of
                  [] \<Rightarrow> add_group g (10 * (ord e - 0x30) + (ord d - 0x30)) (Inr [])
                | d3 # cs2 \<Rightarrow>
                    if isoctal e \<and> isoctal d \<and> isoctal d3 then
                      (if octal_value [e, d, d3] > 255 then Inl ReError
                       else add_item (TLit [chr (octal_value [e, d, d3])]) (parse_template g cs2))
                    else add_group g (10 * (ord e - 0x30) + (ord d - 0x30)) (parse_template g cs1))
             else add_group g (ord e - 0x30) (parse_template g cs))
      else (case escapes e of
              Some x \<Rightarrow> add_item (TLit [x]) (parse_template g cs)
            | None \<Rightarrow>
                if is_ascii_letter e then Inl ReError
                else add_item (TLit [c, e]) (parse_template g cs)))"
  by pat_completeness auto
termination
proof (relation "measure (\<lambda>(g, t). length t)", goal_cases)
  case (3 g c e cs lt cs1 t cs2)
  have "length (dropWhile in_name cs1) \<le> length cs1" by (rule length_dropWhile_le)
  with 3 show ?case by simp
qed simp_all


text \<open>\<^verbatim>\<open>expand_template\<close>: a group that took no part in the match expands to the empty
  string.\<close>

fun expand_item :: "mstate \<Rightarrow> titem \<Rightarrow> string" where
  "expand_item st (TLit s) = s"
| "expand_item st (TGroup n) = (case group st n of None \<Rightarrow> [] | Some s \<Rightarrow> s)"

definition expand_template :: "titem list \<Rightarrow> mstate \<Rightarrow> string" where
  "expand_template items st = concat (map (expand_item st) items)"

fun group_count :: "regex \<Rightarrow> nat" where
  "group_count (Group n r) = max n (group_count r)"
| "group_count (Seq r1 r2) = max (group_count r1) (group_count r2)"
| "group_count r = 0"

text \<open>\<^verbatim>\<open>re.sub(pattern, template, string)\<close>.\<close>

definition re_sub_template :: "regex \<Rightarrow> string \<Rightarrow> string \<Rightarrow> error + string" where
  "re_sub_template r template s =
     (case parse_template (group_count r) template of
        Inl e \<Rightarrow> Inl e
      | Inr items \<Rightarrow> re_sub r (\<lambda>st. Inr (expand_template items st)) s)"

section \<open>The functions of \<^verbatim>\<open>nozomi/helpers.py\<close>\<close>

text \<open>
  Each function keeps its name; a leading underscore is dropped, since an Isabelle name
  cannot start with one. The parameter \<^verbatim>\<open>id\<close> of \<^verbatim>\<open>_calculate_post_filepath\<close> is called
  \<open>ident\<close>. A \<^verbatim>\<open>try\<close> block becomes a case distinction on the result of its body, with
  one branch for each \<^verbatim>\<open>except\<close> clause.
\<close>

subsection \<open>The four patterns\<close>

text \<open>\<^verbatim>\<open>'[/#%]'\<close>\<close>

definition invalid_chars_re :: regex where
  "invalid_chars_re = Atom (Class [CChar CHR ''/'', CChar CHR ''#'', CChar CHR ''%''])"

text \<open>\<^verbatim>\<open>r"post\/([\s\S]*?)\.html"\<close>\<close>

definition literal :: "string \<Rightarrow> regex \<Rightarrow> regex" where
  "literal s r = foldr (\<lambda>c. Seq (Atom (Lit c))) s r"

definition post_id_re :: regex where
  "post_id_re =
     literal ''post/'' (Seq (Group 1 (StarLazy (Class [CSpace, CNotSpace]))) (literal ''.html'' Eps))"

text \<open>\<^verbatim>\<open>'^.*(..)(.)$'\<close>\<close>

definition shard_re :: regex where
  "shard_re =
     Seq Bol (Seq (Star Dot)
       (Seq (Group 1 (Seq (Atom Dot) (Atom Dot))) (Seq (Group 2 (Atom Dot)) Eol)))"

text \<open>\<^verbatim>\<open>'[;/?:@=&]'\<close>\<close>

definition reserved_chars_re :: regex where
  "reserved_chars_re =
     Atom (Class [CChar CHR '';'', CChar CHR ''/'', CChar CHR ''?'', CChar CHR '':'',
                  CChar CHR ''@'', CChar CHR ''='', CChar CHR ''&''])"

subsection \<open>Tags\<close>

definition quote :: char where
  "quote = CHR 0x27"

definition validate_tag_sanitized :: "string \<Rightarrow> error + unit" where
  "validate_tag_sanitized tag =
     (if tag = [] then
        Inl (InvalidTagFormat
          (''The tag '' @ [quote] @ tag @ [quote] @ '' is invalid. Cannot be empty.''))
      else if hd tag = CHR ''-'' then
        Inl (InvalidTagFormat
          (''The tag '' @ [quote] @ tag @ [quote] @
           '' is invalid. Cannot begin with character '' @ [quote] @ ''-'' @ [quote]))
      else Inr ())"

definition is_InvalidTagFormat :: "error \<Rightarrow> bool" where
  "is_InvalidTagFormat e = (case e of InvalidTagFormat _ \<Rightarrow> True | _ \<Rightarrow> False)"

text \<open>In \<^verbatim>\<open>sanitize_tag\<close> an exception other than \<^verbatim>\<open>InvalidTagFormat\<close> is logged and
  dropped, and the function returns what \<^verbatim>\<open>sanitized_tag\<close> holds at that point.\<close>

definition sanitize_tag :: "string \<Rightarrow> error + string" where
  "sanitize_tag tag =
     (let sanitized_tag = strip (lower tag) in
      case re_sub_template invalid_chars_re [] sanitized_tag of
        Inl e \<Rightarrow> Inr sanitized_tag
      | Inr sanitized_tag \<Rightarrow>
          (case validate_tag_sanitized sanitized_tag of
             Inl e \<Rightarrow> if is_InvalidTagFormat e then Inl e else Inr sanitized_tag
           | Inr _ \<Rightarrow> Inr sanitized_tag))"

text \<open>\<^verbatim>\<open>ord(c.group(0))\<close> raises a \<^verbatim>\<open>TypeError\<close> unless the string has one character.\<close>

definition ord_str :: "string option \<Rightarrow> error + nat" where
  "ord_str s = (case s of Some [c] \<Rightarrow> Inr (ord c) | _ \<Rightarrow> Inl TypeError)"

definition convert_char_to_hex :: "mstate \<Rightarrow> error + string" where
  "convert_char_to_hex c =
     (case ord_str (group c 0) of Inl e \<Rightarrow> Inl e | Inr n \<Rightarrow> Inr (CHR ''%'' # format_x n))"

definition encode_tag :: "string \<Rightarrow> error + string" where
  "encode_tag sanitized_tag = re_sub reserved_chars_re convert_char_to_hex sanitized_tag"

text \<open>In \<^verbatim>\<open>create_tag_filepath\<close> an exception other than \<^verbatim>\<open>InvalidTagFormat\<close> is logged
  and dropped; the \<^verbatim>\<open>return\<close> then reads \<^verbatim>\<open>encoded_tag\<close>, which was never assigned.\<close>

definition create_tag_filepath :: "string \<Rightarrow> error + string" where
  "create_tag_filepath sanitized_tag =
     (case validate_tag_sanitized sanitized_tag of
        Inl e \<Rightarrow>
          if is_InvalidTagFormat e
          then Inl (InvalidTagFormat ''Tag must be sanitized before creating a filepath.'')
          else Inl UnboundLocalError
      | Inr _ \<Rightarrow>
          (case encode_tag sanitized_tag of
             Inl e \<Rightarrow>
               if is_InvalidTagFormat e
               then Inl (InvalidTagFormat ''Tag must be sanitized before creating a filepath.'')
               else Inl UnboundLocalError
           | Inr encoded_tag \<Rightarrow> Inr (''https://j.nozomi.la/nozomi/'' @ encoded_tag @ ''.nozomi'')))"

subsection \<open>Post identifiers\<close>

text \<open>What \<^verbatim>\<open>parse_post_id\<close> can return: the variable \<^verbatim>\<open>post_id\<close> holds the captured
  string first and the integer after the conversion.\<close>

datatype py_value = PyInt int | PyStr string | PyNone

text \<open>\<^verbatim>\<open>re.search\<close> returns \<^verbatim>\<open>None\<close> when nothing matches; \<^verbatim>\<open>.group(1)\<close> then raises the
  \<^verbatim>\<open>AttributeError\<close> that the function turns into \<^verbatim>\<open>InvalidUrlFormat\<close>. When \<^verbatim>\<open>int\<close>
  raises, the exception is logged and dropped, and the function returns the captured
  string.\<close>

definition parse_post_id :: "string \<Rightarrow> error + py_value" where
  "parse_post_id url =
     (case re_search post_id_re url of
        None \<Rightarrow> Inl (InvalidUrlFormat ''The provided URL %s could not be parsed.'' url)
      | Some m \<Rightarrow>
          (case group m 1 of
             None \<Rightarrow> Inr PyNone
           | Some post_id \<Rightarrow>
               (case py_int post_id of
                  None \<Rightarrow> Inr (PyStr post_id)
                | Some n \<Rightarrow> Inr (PyInt n))))"

subsection \<open>Paths\<close>

definition calculate_post_filepath :: "string \<Rightarrow> error + string" where
  "calculate_post_filepath ident =
     (if length ident < 3 then Inr ident
      else re_sub_template shard_re
             ([bslash] @ ''g<2>/'' @ [bslash] @ ''g<1>/'' @ ident) ident)"

record MediaMetaData =
  dataid :: string
  is_video :: bool
  media_type :: string

definition create_media_filepath :: "MediaMetaData \<Rightarrow> error + string" where
  "create_media_filepath media =
     (let (subdomain, url_type) =
            (if is_video media then (''v'', media_type media)
             else if media_type media = ''gif'' then (''g'', ''gif'')
             else (''w'', ''webp''))
      in case calculate_post_filepath (dataid media) of
           Inl e \<Rightarrow> Inl e
         | Inr path \<Rightarrow> Inr (''https://'' @ subdomain @ ''.nozomi.la/'' @ path @ ''.'' @ url_type))"

definition create_post_filepath :: "int \<Rightarrow> error + string" where
  "create_post_filepath post_id =
     (case calculate_post_filepath (str post_id) of
        Inl e \<Rightarrow> Inl e
      | Inr path \<Rightarrow> Inr (''https://j.nozomi.la/post/'' @ path @ ''.json''))"

section \<open>Properties\<close>

text \<open>The equations of the two recursive functions of the matcher are unfolded by hand.\<close>

declare search_from.simps [simp del]
declare sub_loop.simps [simp del]

subsection \<open>Substitution for a pattern of one character\<close>

text \<open>The patterns \<^verbatim>\<open>'[/#%]'\<close> and \<^verbatim>\<open>'[;/?:@=&]'\<close> match one character. The search then
  finds the first character of the class, and \<^verbatim>\<open>sub\<close> replaces every character of the
  class and copies the others.\<close>

lemma search_from_Atom:
  "search_from (Atom a) m b s =
     (case dropWhile (\<lambda>c. \<not> atom_ok a c) s of
        [] \<Rightarrow> None
      | c # cs \<Rightarrow>
          Some \<lparr>seen = b @ takeWhile (\<lambda>c. \<not> atom_ok a c) s @ [c], rest = cs,
                start = length b + length (takeWhile (\<lambda>c. \<not> atom_ok a c) s),
                groups = Map.empty\<rparr>)"
proof (induction s arbitrary: b m)
  case Nil
  show ?case by (subst search_from.simps) (simp add: init_state_def)
next
  case (Cons c cs)
  show ?case
  proof (cases "atom_ok a c")
    case True
    then show ?thesis
      by (subst search_from.simps) (simp add: init_state_def move_to_def is_empty_match_def)
  next
    case False
    then show ?thesis
      by (subst search_from.simps) (simp add: init_state_def Cons.IH split: list.split del: dropWhile_eq_Nil_conv)
  qed
qed

lemma sub_loop_Atom:
  assumes repl: "\<And>b c cs. repl \<lparr>seen = b @ [c], rest = cs, start = length b, groups = Map.empty\<rparr> = Inr (f c)"
  shows "sub_loop (Atom a) repl m b s =
           Inr (concat (map (\<lambda>c. if atom_ok a c then f c else [c]) s))"
proof (induction "length s" arbitrary: s b m rule: less_induct)
  case less
  let ?P = "\<lambda>c. \<not> atom_ok a c"
  let ?g = "\<lambda>s. concat (map (\<lambda>c. if atom_ok a c then f c else [c]) s)"
  have id: "?g (takeWhile ?P s) = takeWhile ?P s"
    by (induction s) auto
  show ?case
  proof (cases "dropWhile ?P s")
    case Nil
    then have "takeWhile ?P s = s"
      by (metis append_Nil2 takeWhile_dropWhile_id)
    with id have "?g s = s" by simp
    moreover have "search_from (Atom a) m b s = None"
      unfolding search_from_Atom Nil by simp
    ultimately show ?thesis
      by (subst sub_loop.simps) simp
  next
    case (Cons c cs)
    then have ok: "atom_ok a c"
      by (metis hd_dropWhile list.distinct(1) list.sel(1))
    have s: "s = takeWhile ?P s @ c # cs"
      using Cons by (metis takeWhile_dropWhile_id)
    then have "length cs < length s"
      by (metis add_Suc_right length_Cons length_append less_add_Suc2)
    note IH = less[OF this]
    have "?g s = ?g (takeWhile ?P s) @ ?g (c # cs)"
      by (subst s) (simp only: map_append concat_append)
    then have g: "?g s = takeWhile ?P s @ f c @ ?g cs"
      using id ok by simp
    have tk: "take (length (takeWhile ?P s)) s = takeWhile ?P s"
      by (subst (2) s) simp
    have r: "repl \<lparr>seen = b @ takeWhile ?P s @ [c], rest = cs,
                   start = length b + length (takeWhile ?P s), groups = Map.empty\<rparr> = Inr (f c)"
      using repl[of "b @ takeWhile ?P s" c cs] by simp
    have sf: "search_from (Atom a) m b s =
        Some \<lparr>seen = b @ takeWhile ?P s @ [c], rest = cs,
                   start = length b + length (takeWhile ?P s), groups = Map.empty\<rparr>"
      unfolding search_from_Atom Cons by simp
    show ?thesis
      by (subst sub_loop.simps) (simp add: sf r IH g tk)
  qed
qed

lemma re_sub_invalid_chars:
  "re_sub_template invalid_chars_re [] s =
     Inr (filter (\<lambda>c. c \<notin> {CHR ''/'', CHR ''#'', CHR ''%''}) s)"
proof -
  have "sub_loop invalid_chars_re (\<lambda>st. Inr (expand_template [] st)) False [] s =
        Inr (concat (map (\<lambda>c. if atom_ok (Class [CChar CHR ''/'', CChar CHR ''#'', CChar CHR ''%'']) c then [] else [c]) s))"
    unfolding invalid_chars_re_def
    by (rule sub_loop_Atom) (simp add: expand_template_def)
  moreover have "concat (map (\<lambda>c. if atom_ok (Class [CChar CHR ''/'', CChar CHR ''#'', CChar CHR ''%'']) c then [] else [c]) s)
      = filter (\<lambda>c. c \<notin> {CHR ''/'', CHR ''#'', CHR ''%''}) s"
    by (induction s) auto
  ultimately show ?thesis
    by (simp add: re_sub_template_def re_sub_def)
qed

lemma encode_tag_eq:
  "encode_tag s =
     Inr (concat (map (\<lambda>c. if c \<in> {CHR '';'', CHR ''/'', CHR ''?'', CHR '':'', CHR ''@'', CHR ''='', CHR ''&''}
                            then CHR ''%'' # format_x (ord c) else [c]) s))"
proof -
  have "sub_loop reserved_chars_re convert_char_to_hex False [] s =
        Inr (concat (map (\<lambda>c. if atom_ok (Class [CChar CHR '';'', CChar CHR ''/'', CChar CHR ''?'', CChar CHR '':'',
                  CChar CHR ''@'', CChar CHR ''='', CChar CHR ''&'']) c then CHR ''%'' # format_x (ord c) else [c]) s))"
    unfolding reserved_chars_re_def
    by (rule sub_loop_Atom) (simp add: convert_char_to_hex_def group_def ord_str_def)
  moreover have "\<And>c. atom_ok (Class [CChar CHR '';'', CChar CHR ''/'', CChar CHR ''?'', CChar CHR '':'',
                  CChar CHR ''@'', CChar CHR ''='', CChar CHR ''&'']) c
       = (c \<in> {CHR '';'', CHR ''/'', CHR ''?'', CHR '':'', CHR ''@'', CHR ''='', CHR ''&''})"
    by auto
  ultimately show ?thesis
    by (simp add: encode_tag_def re_sub_def)
qed

subsection \<open>Lower case and white space\<close>

lemma ord_chr: "n < 256 \<Longrightarrow> ord (chr n) = n"
  by (simp add: ord_def chr_def)

lemma lower_char_idem: "lower_char (lower_char c) = lower_char c"
proof -
  have "ord c < 256" by (simp add: ord_def)
  then show ?thesis
    by (auto simp: lower_char_def Let_def ord_chr)
qed

lemma lower_idem: "lower (lower s) = lower s"
  by (simp add: lower_def lower_char_idem)

lemma lower_filter: "lower (filter P (lower s)) = filter P (lower s)"
  by (induction s) (auto simp: lower_def lower_char_idem)

lemma lower_dropWhile: "lower s = s \<Longrightarrow> lower (dropWhile P s) = dropWhile P s"
  by (induction s) (auto simp: lower_def)

lemma lower_rev: "lower (rev s) = rev (lower s)"
  by (simp add: lower_def rev_map)

lemma lower_strip: "lower s = s \<Longrightarrow> lower (strip s) = strip s"
  by (simp add: strip_def lower_rev lower_dropWhile)

lemma lower_filter': "lower s = s \<Longrightarrow> lower (filter P s) = filter P s"
  by (metis lower_filter)

lemma strip_fixed: "s = [] \<or> (\<not> isspace (hd s) \<and> \<not> isspace (last s)) \<Longrightarrow> strip s = s"
proof (cases "s = []")
  case True
  then show ?thesis by (simp add: strip_def)
next
  case False
  assume "s = [] \<or> (\<not> isspace (hd s) \<and> \<not> isspace (last s))"
  with False have h: "\<not> isspace (hd s)" and l: "\<not> isspace (last s)" by auto
  from h False have 1: "dropWhile isspace s = s"
    by (simp add: dropWhile_eq_self_iff)
  from l False have 2: "dropWhile isspace (rev s) = rev s"
    by (simp add: dropWhile_eq_self_iff hd_rev)
  show ?thesis by (simp add: strip_def 1 2)
qed

lemma strip_ends: "strip s = [] \<or> (\<not> isspace (hd (strip s)) \<and> \<not> isspace (last (strip s)))"
proof (cases "strip s = []")
  case True
  then show ?thesis by simp
next
  case False
  let ?y = "dropWhile isspace s"
  let ?z = "dropWhile isspace (rev ?y)"
  have s: "strip s = rev ?z" by (simp add: strip_def)
  with False have zne: "?z \<noteq> []" by simp
  then have "\<not> isspace (hd ?z)" by (rule hd_dropWhile)
  then have l: "\<not> isspace (last (strip s))"
    using zne by (simp add: s last_rev)
  have "?y = [] \<Longrightarrow> ?z = []" by (simp del: dropWhile_eq_Nil_conv)
  with zne have yne: "?y \<noteq> []" by blast
  then have hy: "\<not> isspace (hd ?y)" by (rule hd_dropWhile)
  obtain p where p: "rev ?y = p @ ?z"
    by (metis takeWhile_dropWhile_id)
  then have "?y = rev ?z @ rev p"
    by (metis rev_append rev_rev_ident)
  with zne have "hd ?y = hd (rev ?z)"
    by (metis hd_append2 rev_is_Nil_conv)
  with hy have "\<not> isspace (hd (strip s))" by (simp add: s)
  with l show ?thesis by simp
qed

lemma strip_idem: "strip (strip s) = strip s"
  by (rule strip_fixed) (rule strip_ends)

lemma ord_lower_char:
  "ord (lower_char c) =
     (if (0x41 \<le> ord c \<and> ord c \<le> 0x5A) \<or> (0xC0 \<le> ord c \<and> ord c \<le> 0xDE \<and> ord c \<noteq> 0xD7)
      then ord c + 0x20 else ord c)"
  by (auto simp: lower_char_def Let_def ord_chr)

lemma lower_char_reserved:
  assumes "lower_char c \<in> {CHR ''/'', CHR ''#'', CHR ''%''}"
  shows "lower_char c = c"
proof -
  from assms have "ord (lower_char c) \<in> {47, 35, 37}"
    by (auto simp: ord_def)
  then have "\<not> ((0x41 \<le> ord c \<and> ord c \<le> 0x5A) \<or> (0xC0 \<le> ord c \<and> ord c \<le> 0xDE \<and> ord c \<noteq> 0xD7))"
    unfolding ord_lower_char by (auto split: if_splits)
  then show ?thesis
    by (auto simp add: lower_char_def Let_def)
qed

lemma alnum_props:
  assumes "(0x61 \<le> ord c \<and> ord c \<le> 0x7A) \<or> (0x30 \<le> ord c \<and> ord c \<le> 0x39)"
  shows "lower_char c = c \<and> \<not> isspace c \<and> c \<notin> {CHR ''/'', CHR ''#'', CHR ''%''} \<and> c \<noteq> CHR ''-''"
proof -
  have 1: "lower_char c = c" using assms by (auto simp: lower_char_def Let_def)
  have 2: "\<not> isspace c" using assms by (auto simp: isspace_def)
  have "ord c \<notin> {47, 35, 37, 45}" using assms by auto
  then have 3: "c \<notin> {CHR ''/'', CHR ''#'', CHR ''%'', CHR ''-''}"
    by (auto simp: ord_def)
  from 1 2 3 show ?thesis by simp
qed

subsection \<open>Tags\<close>

text \<open>\<^verbatim>\<open>sanitize_tag\<close> in closed form: the tag is put in lower case and stripped, the
  characters \<^verbatim>\<open>/\<close>, \<^verbatim>\<open>#\<close> and \<^verbatim>\<open>%\<close> are removed from it, and the result is validated. The
  replacement template is empty, so \<^verbatim>\<open>re.sub\<close> cannot raise and the handler of other
  exceptions is never entered.\<close>

lemma sanitize_tag_eq:
  "sanitize_tag tag =
     (let s = filter (\<lambda>c. c \<notin> {CHR ''/'', CHR ''#'', CHR ''%''}) (strip (lower tag)) in
      if s = [] then
        Inl (InvalidTagFormat (''The tag '' @ [quote] @ [quote] @ '' is invalid. Cannot be empty.''))
      else if hd s = CHR ''-'' then
        Inl (InvalidTagFormat (''The tag '' @ [quote] @ s @ [quote] @
               '' is invalid. Cannot begin with character '' @ [quote] @ ''-'' @ [quote]))
      else Inr s)"
  by (simp add: sanitize_tag_def re_sub_invalid_chars validate_tag_sanitized_def
        is_InvalidTagFormat_def Let_def)

text \<open>
  \<^bold>\<open>C4\<close> (amended). Every string \<open>s\<close> that \<^verbatim>\<open>sanitize_tag\<close> returns is the input in lower
  case, stripped of the white space at its ends, and then without its characters \<^verbatim>\<open>/\<close>,
  \<^verbatim>\<open>#\<close> and \<^verbatim>\<open>%\<close>. It is in lower case, contains none of these three characters, is not
  empty and does not start with \<^verbatim>\<open>-\<close>. It has no white space at its ends when the input
  contains none of the three characters; in general it can, because the white space is
  stripped before the characters are removed. \<^verbatim>\<open>sanitize_tag(" Foo/Bar# ")\<close> returns
  \<^verbatim>\<open>"foobar"\<close>.
\<close>

theorem sanitize_tag_result:
  assumes "sanitize_tag tag = Inr s"
  shows "s = filter (\<lambda>c. c \<notin> set ''/#%'') (strip (lower tag)) \<and>
         lower s = s \<and> set s \<inter> set ''/#%'' = {} \<and> s \<noteq> [] \<and> hd s \<noteq> CHR ''-'' \<and>
         (set tag \<inter> set ''/#%'' = {} \<longrightarrow> strip s = s) \<and>
         sanitize_tag '' Foo/Bar# '' = Inr ''foobar''"
proof -
  define r where "r = strip (lower tag)"
  define u where "u = filter (\<lambda>c. c \<notin> {CHR ''/'', CHR ''#'', CHR ''%''}) r"
  have eq: "sanitize_tag tag =
      (if u = [] then
        Inl (InvalidTagFormat (''The tag '' @ [quote] @ [quote] @ '' is invalid. Cannot be empty.''))
      else if hd u = CHR ''-'' then
        Inl (InvalidTagFormat (''The tag '' @ [quote] @ u @ [quote] @
               '' is invalid. Cannot begin with character '' @ [quote] @ ''-'' @ [quote]))
      else Inr u)"
    unfolding u_def r_def sanitize_tag_eq Let_def by (rule refl)
  have ne: "u \<noteq> []"
    using assms unfolding eq by (cases "u = []") simp_all
  have hd: "hd u \<noteq> CHR ''-''"
    using assms ne unfolding eq by (cases "hd u = CHR ''-''") simp_all
  have s: "s = u"
    using assms ne hd unfolding eq by simp
  have "lower r = r"
    unfolding r_def by (intro lower_strip lower_idem)
  then have low: "lower u = u"
    unfolding u_def by (rule lower_filter')
  have no: "set u \<inter> {CHR ''/'', CHR ''#'', CHR ''%''} = {}"
    unfolding u_def by auto
  have trim: "strip u = u" if "set tag \<inter> {CHR ''/'', CHR ''#'', CHR ''%''} = {}"
  proof -
    have "set r \<subseteq> set (lower tag)"
      unfolding r_def strip_def by (auto dest!: set_dropWhileD)
    moreover have "x \<notin> {CHR ''/'', CHR ''#'', CHR ''%''}" if x: "x \<in> set (lower tag)" for x
    proof -
      from x obtain c where c: "c \<in> set tag" and xc: "x = lower_char c"
        unfolding lower_def by (metis (no_types) imageE set_map)
      from c \<open>set tag \<inter> {CHR ''/'', CHR ''#'', CHR ''%''} = {}\<close>
      have "c \<notin> {CHR ''/'', CHR ''#'', CHR ''%''}" by blast
      then show ?thesis
        unfolding xc using lower_char_reserved[of c] by metis
    qed
    ultimately have "\<forall>c\<in>set r. c \<notin> {CHR ''/'', CHR ''#'', CHR ''%''}"
      by blast
    then have "u = r"
      unfolding u_def by (simp only: filter_True)
    then show ?thesis unfolding r_def by (simp only: strip_idem)
  qed
  have ex: "sanitize_tag '' Foo/Bar# '' = Inr ''foobar''"
    by code_simp
  have set3: "set ''/#%'' = {CHR ''/'', CHR ''#'', CHR ''%''}" by simp
  show ?thesis
    unfolding set3 s using low no ne hd trim ex unfolding u_def r_def by blast
qed

theorem sanitize_tag_result_witness:
  "sanitize_tag ''Cat Girl'' = Inr ''cat girl'' \<and>
   lower ''cat girl'' = ''cat girl'' \<and> set ''cat girl'' \<inter> set ''/#%'' = {} \<and>
   strip ''cat girl'' = ''cat girl''"
proof -
  have h: "sanitize_tag ''Cat Girl'' = Inr ''cat girl''" by code_simp
  have d: "set ''Cat Girl'' \<inter> set ''/#%'' = {}" by simp
  from sanitize_tag_result[OF h] d h show ?thesis by blast
qed

text \<open>The result need not be trimmed: \<^verbatim>\<open>sanitize_tag("/ a")\<close> returns \<^verbatim>\<open>" a"\<close>, which
  starts with a space.\<close>

theorem sanitize_tag_not_trimmed:
  "sanitize_tag ''/ a'' = Inr '' a'' \<and> strip '' a'' \<noteq> '' a''"
  by code_simp

text \<open>
  \<^bold>\<open>C7\<close>. \<^verbatim>\<open>sanitize_tag\<close> raises \<^verbatim>\<open>InvalidTagFormat\<close> exactly when the input, in lower
  case, stripped and without its characters \<^verbatim>\<open>/\<close>, \<^verbatim>\<open>#\<close> and \<^verbatim>\<open>%\<close>, is empty or starts
  with \<^verbatim>\<open>-\<close>, and it raises nothing else. \<^verbatim>\<open>sanitize_tag("-abc")\<close> and
  \<^verbatim>\<open>sanitize_tag("")\<close> raise \<^verbatim>\<open>InvalidTagFormat\<close>.
\<close>

theorem sanitize_tag_raises_iff:
  "(\<exists>m. sanitize_tag tag = Inl (InvalidTagFormat m)) =
     (let s = filter (\<lambda>c. c \<notin> set ''/#%'') (strip (lower tag)) in s = [] \<or> hd s = CHR ''-'') \<and>
   (\<exists>e. sanitize_tag tag = Inl e) =
     (let s = filter (\<lambda>c. c \<notin> set ''/#%'') (strip (lower tag)) in s = [] \<or> hd s = CHR ''-'') \<and>
   sanitize_tag ''-abc'' =
     Inl (InvalidTagFormat (''The tag '' @ [quote] @ ''-abc'' @ [quote] @
            '' is invalid. Cannot begin with character '' @ [quote] @ ''-'' @ [quote])) \<and>
   sanitize_tag '''' =
     Inl (InvalidTagFormat (''The tag '' @ [quote] @ [quote] @ '' is invalid. Cannot be empty.''))"
proof -
  have 1: "sanitize_tag ''-abc'' =
     Inl (InvalidTagFormat (''The tag '' @ [quote] @ ''-abc'' @ [quote] @
            '' is invalid. Cannot begin with character '' @ [quote] @ ''-'' @ [quote]))"
    by code_simp
  have 2: "sanitize_tag '''' =
     Inl (InvalidTagFormat (''The tag '' @ [quote] @ [quote] @ '' is invalid. Cannot be empty.''))"
    by code_simp
  show ?thesis
    using 1 2 by (simp add: sanitize_tag_eq Let_def)
qed

text \<open>
  \<^bold>\<open>C9\<close>. For a tag \<open>t\<close> of lower-case letters and digits only (such a tag does not
  start with \<^verbatim>\<open>-\<close>), sanitizing twice is sanitizing once: when \<^verbatim>\<open>sanitize_tag(t)\<close>
  returns, \<^verbatim>\<open>sanitize_tag\<close> of the result returns the same, and when it raises (the empty
  tag), so does the composition. A tag of this kind that is not empty is returned as it is.
\<close>

theorem sanitize_tag_idempotent:
  assumes "set t \<subseteq> set ''abcdefghijklmnopqrstuvwxyz0123456789''"
  shows "(case sanitize_tag t of Inl e \<Rightarrow> Inl e | Inr s \<Rightarrow> sanitize_tag s) = sanitize_tag t \<and>
         (t \<noteq> [] \<longrightarrow> sanitize_tag t = Inr t)"
proof -
  have c: "lower_char c = c \<and> \<not> isspace c \<and> c \<notin> {CHR ''/'', CHR ''#'', CHR ''%''} \<and> c \<noteq> CHR ''-''"
    if "c \<in> set t" for c
  proof -
    from that assms have "c \<in> set ''abcdefghijklmnopqrstuvwxyz0123456789''" by blast
    then have "(0x61 \<le> ord c \<and> ord c \<le> 0x7A) \<or> (0x30 \<le> ord c \<and> ord c \<le> 0x39)"
      by (auto simp: ord_def)
    then show ?thesis
      by (rule alnum_props)
  qed
  have low: "lower t = t"
    unfolding lower_def by (rule map_idI) (simp add: c)
  have "strip t = t"
  proof (rule strip_fixed, cases "t = []")
    case False
    then have "hd t \<in> set t" "last t \<in> set t" by simp_all
    with c show "t = [] \<or> (\<not> isspace (hd t) \<and> \<not> isspace (last t))" by blast
  qed simp
  moreover have "filter (\<lambda>c. c \<notin> {CHR ''/'', CHR ''#'', CHR ''%''}) t = t"
  proof -
    from c have "\<forall>x\<in>set t. x \<notin> {CHR ''/'', CHR ''#'', CHR ''%''}" by blast
    then show ?thesis by (simp only: filter_True)
  qed
  moreover have "hd t \<noteq> CHR ''-''" if "t \<noteq> []"
    using that c[of "hd t"] by simp
  ultimately have r: "t \<noteq> [] \<Longrightarrow> sanitize_tag t = Inr t"
    by (simp add: sanitize_tag_eq low Let_def)
  have e: "t = [] \<Longrightarrow> \<exists>e. sanitize_tag t = Inl e"
    by (simp add: sanitize_tag_eq Let_def strip_def lower_def)
  show ?thesis
  proof (cases "t = []")
    case True
    with e obtain x where "sanitize_tag t = Inl x" by blast
    with True show ?thesis by simp
  next
    case False
    with r show ?thesis by simp
  qed
qed

theorem sanitize_tag_idempotent_witness:
  "(case sanitize_tag ''cat9'' of Inl e \<Rightarrow> Inl e | Inr s \<Rightarrow> sanitize_tag s) = sanitize_tag ''cat9'' \<and>
   sanitize_tag ''cat9'' = Inr ''cat9''"
proof -
  have h: "set ''cat9'' \<subseteq> set ''abcdefghijklmnopqrstuvwxyz0123456789''" by simp
  from sanitize_tag_idempotent[OF h] show ?thesis by simp
qed

text \<open>
  \<^bold>\<open>C6\<close>. \<^verbatim>\<open>_encode_tag\<close> replaces each of the seven characters \<^verbatim>\<open>; / ? : @ = &\<close> by
  \<^verbatim>\<open>%\<close> and the hexadecimal digits, in lower case, of its code point (\<^verbatim>\<open>%3b\<close>, \<^verbatim>\<open>%2f\<close>,
  \<^verbatim>\<open>%3f\<close>, \<^verbatim>\<open>%3a\<close>, \<^verbatim>\<open>%40\<close>, \<^verbatim>\<open>%3d\<close>, \<^verbatim>\<open>%26\<close>), and copies every other character; it
  never raises. \<^verbatim>\<open>"a;b&c"\<close> is encoded as \<^verbatim>\<open>"a%3bb%26c"\<close>.
\<close>

theorem encode_tag_replaces_reserved:
  "encode_tag s =
     Inr (concat (map (\<lambda>c. if c \<in> set '';/?:@=&'' then CHR ''%'' # format_x (ord c) else [c]) s)) \<and>
   map (\<lambda>c. format_x (ord c)) '';/?:@=&'' = [''3b'', ''2f'', ''3f'', ''3a'', ''40'', ''3d'', ''26''] \<and>
   encode_tag ''a;b&c'' = Inr ''a%3bb%26c''"
proof -
  have 1: "map (\<lambda>c. format_x (ord c)) '';/?:@=&'' = [''3b'', ''2f'', ''3f'', ''3a'', ''40'', ''3d'', ''26'']"
    by code_simp
  have 2: "encode_tag ''a;b&c'' = Inr ''a%3bb%26c''"
    by code_simp
  show ?thesis
    using 1 2 by (simp add: encode_tag_eq)
qed

text \<open>
  \<^bold>\<open>C8\<close>. \<^verbatim>\<open>create_tag_filepath\<close> raises \<^verbatim>\<open>InvalidTagFormat\<close>, with the message that
  the tag must be sanitized first, when its argument is empty or starts with \<^verbatim>\<open>-\<close>, and
  only then: for every other argument the encoder returns, and the function returns the
  encoded tag between \<^verbatim>\<open>https://j.nozomi.la/nozomi/\<close> and \<^verbatim>\<open>.nozomi\<close>. For \<^verbatim>\<open>"cat"\<close> it
  returns \<^verbatim>\<open>https://j.nozomi.la/nozomi/cat.nozomi\<close>.
\<close>

theorem create_tag_filepath_spec:
  "(t = [] \<or> hd t = CHR ''-'' \<longrightarrow>
      create_tag_filepath t =
        Inl (InvalidTagFormat ''Tag must be sanitized before creating a filepath.'')) \<and>
   (t \<noteq> [] \<and> hd t \<noteq> CHR ''-'' \<longrightarrow>
      (\<exists>enc. encode_tag t = Inr enc \<and>
             create_tag_filepath t = Inr (''https://j.nozomi.la/nozomi/'' @ enc @ ''.nozomi''))) \<and>
   create_tag_filepath ''cat'' = Inr ''https://j.nozomi.la/nozomi/cat.nozomi''"
proof -
  have ex: "create_tag_filepath ''cat'' = Inr ''https://j.nozomi.la/nozomi/cat.nozomi''"
    by code_simp
  obtain enc where enc: "encode_tag t = Inr enc"
    by (simp add: encode_tag_eq)
  show ?thesis
    using ex enc
    by (simp add: create_tag_filepath_def validate_tag_sanitized_def is_InvalidTagFormat_def)
qed

theorem create_tag_filepath_spec_witness:
  "create_tag_filepath ''-abc'' =
     Inl (InvalidTagFormat ''Tag must be sanitized before creating a filepath.'') \<and>
   create_tag_filepath '''' =
     Inl (InvalidTagFormat ''Tag must be sanitized before creating a filepath.'') \<and>
   create_tag_filepath ''a;b&c'' = Inr ''https://j.nozomi.la/nozomi/a%3bb%26c.nozomi''"
proof -
  have e: "encode_tag ''a;b&c'' = Inr ''a%3bb%26c''" by code_simp
  from create_tag_filepath_spec[of "''-abc''"] create_tag_filepath_spec[of "''''"]
    create_tag_filepath_spec[of "''a;b&c''"] e
  show ?thesis by simp
qed

end
